theory Spec2Isabelle
  imports Main
begin

section \<open>The upload endpoint of \<open>server.py\<close>\<close>

text \<open>
  The repository is one Flask module, \<open>src/server.py\<close>. Its request handler
  \<open>upload_file\<close> checks a shared-secret header, checks that a file part with an
  allow-listed extension is present, stores the file under a folder named after the
  current date, optionally checks a zip archive, optionally stores a description, and
  answers with a JSON payload and a status code.

  Conventions of the model.
  \<^item> A Python \<open>str\<close> is a \<open>string\<close>: a list of characters whose code points are
    below 256. A byte string is a \<open>string\<close> too, one character per byte.
  \<^item> The file system is explicit state: the set of directories, the map from paths to
    file contents, and the list of file-system calls made so far (newest last).
  \<^item> Everything the handler obtains from outside the module is a field of the
    environment \<open>env\<close>: the value of the environment variable, the two clock readings,
    which file-system calls the operating system fails, what the \<open>zipfile\<close> library
    finds in a byte string, and the Unicode decomposition table that
    \<open>secure_filename\<close> consults for non-ASCII characters.
  \<^item> A file-system call that the operating system fails raises \<open>OSError\<close> and has no
    effect on directories and files; \<open>os.path.exists\<close> never fails.
  \<^item> An exception that leaves the handler is the outcome \<open>Raised\<close>; a returned
    \<open>(jsonify(...), status)\<close> pair is the outcome \<open>Returned\<close>.
  \<^item> The platform is POSIX: the path separator is \<open>/\<close>, there is no alternative
    separator, and text files are written without newline translation.
  \<^item> The \<open>print\<close> of the stored path before the success response is not modelled.
\<close>

subsection \<open>Characters and strings\<close>

definition code :: "char \<Rightarrow> nat" where
  "code c = of_char c"

definition is_ascii :: "char \<Rightarrow> bool" where
  "is_ascii c = (code c < 128)"

text \<open>\<open>str.lower\<close> on code points below 256: \<open>A\<close>..\<open>Z\<close> and the Latin-1 capitals
  (192..222 except the multiplication sign 215) move up by 32.\<close>

definition lower_char :: "char \<Rightarrow> char" where
  "lower_char c =
     (let n = code c in
      if (65 \<le> n \<and> n \<le> 90) \<or> (192 \<le> n \<and> n \<le> 222 \<and> n \<noteq> 215)
      then char_of (n + 32) else c)"

definition lower :: "string \<Rightarrow> string" where
  "lower s = map lower_char s"

text \<open>\<open>s.endswith(suffix)\<close> and \<open>s.startswith(prefix)\<close>.\<close>

definition endswith :: "string \<Rightarrow> string \<Rightarrow> bool" where
  "endswith s suffix =
     (length suffix \<le> length s \<and> drop (length s - length suffix) s = suffix)"

definition startswith :: "string \<Rightarrow> string \<Rightarrow> bool" where
  "startswith s prefix = (take (length prefix) s = prefix)"

text \<open>\<open>s.rsplit('.', 1)\<close>: the string cut at its last dot, or the string alone when
  it has no dot.\<close>

definition rsplit_dot :: "string \<Rightarrow> string list" where
  "rsplit_dot s =
     (if CHR ''.'' \<in> set s
      then [rev (tl (dropWhile (\<lambda>c. c \<noteq> CHR ''.'') (rev s))),
            rev (takeWhile (\<lambda>c. c \<noteq> CHR ''.'') (rev s))]
      else [s])"

text \<open>The encoding \<open>encoding="utf-8"\<close> applies to a code point below 256: one byte
  below 128, two bytes from 128 on.\<close>

definition utf8_char :: "char \<Rightarrow> string" where
  "utf8_char c =
     (let n = code c in
      if n < 128 then [c] else [char_of (192 + n div 64), char_of (128 + n mod 64)])"

definition utf8_encode :: "string \<Rightarrow> string" where
  "utf8_encode s = concat (map utf8_char s)"

subsection \<open>Configuration\<close>

definition UPLOAD_FOLDER :: string where
  "UPLOAD_FOLDER = ''received_reports''"

definition ALLOWED_EXTENSIONS :: "string set" where
  "ALLOWED_EXTENSIONS = {''zip'', ''csv''}"

text \<open>\<open>API_KEY = os.environ.get("ET_API_KEY", "CHANGE_ME_IN_PROD")\<close>; the argument is
  the value of the environment variable, if it is set.\<close>

definition API_KEY :: "string option \<Rightarrow> string" where
  "API_KEY var = (case var of None \<Rightarrow> ''CHANGE_ME_IN_PROD'' | Some k \<Rightarrow> k)"

subsection \<open>Requests, responses and the environment\<close>

text \<open>The uploaded part \<open>request.files['file']\<close>: the client's file name and the
  bytes of the part.\<close>

record file_storage =
  filename :: string
  content :: string

text \<open>What the handler reads from the request: the header \<open>X-ET-AUTH-TOKEN\<close>, the
  entry \<open>file\<close> of \<open>request.files\<close> and the form field \<open>description\<close>, each absent
  or present.\<close>

record request =
  auth_token :: "string option"
  file_part :: "file_storage option"
  description_field :: "string option"

text \<open>\<open>jsonify({...}), status\<close>: the entries of the JSON object and the status
  code.\<close>

datatype response = Response "(string \<times> string) list" nat

fun status_code :: "response \<Rightarrow> nat" where
  "status_code (Response payload n) = n"

fun payload :: "response \<Rightarrow> (string \<times> string) list" where
  "payload (Response kvs n) = kvs"

definition error_response :: "string \<Rightarrow> nat \<Rightarrow> response" where
  "error_response msg n = Response [(''error'', msg)] n"

definition success_response :: response where
  "success_response = Response [(''message'', ''Secure upload successful'')] 201"

text \<open>The calls the handler makes on the file system.\<close>

datatype fs_op =
    Exists string
  | Makedirs string
  | Save string string
  | ZipOpen string
  | WriteText string string

datatype exn = OSError fs_op

datatype outcome = Returned response | Raised exn

text \<open>What \<open>zipfile.ZipFile(path, 'r')\<close> followed by \<open>testzip()\<close> does on a file with
  given bytes: the constructor raises, \<open>testzip\<close> raises, \<open>testzip\<close> names a corrupted
  member, or \<open>testzip\<close> returns \<open>None\<close>.\<close>

datatype zip_verdict = OpenRaises | TestRaises | BadMember string | Sound

record datetime =
  year :: nat
  month :: nat
  day :: nat
  hour :: nat
  minute :: nat
  second :: nat

record env =
  environ_key :: "string option"
  now_first :: datetime
  now_second :: datetime
  io_error :: "fs_op \<Rightarrow> bool"
  zip_probe :: "string \<Rightarrow> zip_verdict"
  nfkd :: "char \<Rightarrow> string"

record fs_state =
  dirs :: "string set"
  files :: "string \<rightharpoonup> string"
  calls :: "fs_op list"

subsection \<open>Library functions the handler calls\<close>

text \<open>\<open>strftime("%Y-%m-%d")\<close> and \<open>strftime("%H%M%S")\<close>: zero-padded decimal fields.\<close>

definition digit :: "nat \<Rightarrow> char" where
  "digit n = char_of (48 + n mod 10)"

definition two_digits :: "nat \<Rightarrow> string" where
  "two_digits n = [digit (n div 10), digit n]"

definition four_digits :: "nat \<Rightarrow> string" where
  "four_digits n = [digit (n div 1000), digit (n div 100), digit (n div 10), digit n]"

definition strftime_date :: "datetime \<Rightarrow> string" where
  "strftime_date t =
     four_digits (year t) @ ''-'' @ two_digits (month t) @ ''-'' @ two_digits (day t)"

definition strftime_time :: "datetime \<Rightarrow> string" where
  "strftime_time t = two_digits (hour t) @ two_digits (minute t) @ two_digits (second t)"

text \<open>\<open>os.path.join(a, b)\<close> of \<open>posixpath\<close>, for two components.\<close>

definition os_path_join :: "string \<Rightarrow> string \<Rightarrow> string" where
  "os_path_join a b =
     (if startswith b ''/'' then b
      else if a = [] \<or> endswith a ''/'' then a @ b
      else a @ ''/'' @ b)"

text \<open>\<open>os.path.exists\<close> never raises; it is recorded as a call.\<close>

definition os_path_exists :: "string \<Rightarrow> fs_state \<Rightarrow> fs_state \<times> bool" where
  "os_path_exists p s =
     (s\<lparr>calls := calls s @ [Exists p]\<rparr>, p \<in> dirs s \<or> files s p \<noteq> None)"

text \<open>\<open>os.makedirs(p)\<close> creates the directory \<open>p\<close> and every missing directory above
  it, or raises.\<close>

definition dir_prefixes :: "string \<Rightarrow> string list" where
  "dir_prefixes p = [take i p. i \<leftarrow> [1..<length p], p ! i = CHR ''/''] @ [p]"

definition os_makedirs :: "env \<Rightarrow> string \<Rightarrow> fs_state \<Rightarrow> fs_state \<times> exn option" where
  "os_makedirs e p s =
     (let s' = s\<lparr>calls := calls s @ [Makedirs p]\<rparr> in
      if io_error e (Makedirs p) then (s', Some (OSError (Makedirs p)))
      else (s'\<lparr>dirs := dirs s' \<union> set (dir_prefixes p)\<rparr>, None))"

text \<open>\<open>file.save(p)\<close> of the uploaded part writes its bytes to \<open>p\<close>, or raises.\<close>

definition file_save :: "env \<Rightarrow> string \<Rightarrow> string \<Rightarrow> fs_state \<Rightarrow> fs_state \<times> exn option" where
  "file_save e p b s =
     (let s' = s\<lparr>calls := calls s @ [Save p b]\<rparr> in
      if io_error e (Save p b) then (s', Some (OSError (Save p b)))
      else (s'\<lparr>files := (files s')(p \<mapsto> b)\<rparr>, None))"

text \<open>\<open>with open(p, "w", encoding="utf-8") as f: f.write(text)\<close>.\<close>

definition write_text :: "env \<Rightarrow> string \<Rightarrow> string \<Rightarrow> fs_state \<Rightarrow> fs_state \<times> exn option" where
  "write_text e p t s =
     (let s' = s\<lparr>calls := calls s @ [WriteText p t]\<rparr> in
      if io_error e (WriteText p t) then (s', Some (OSError (WriteText p t)))
      else (s'\<lparr>files := (files s')(p \<mapsto> utf8_encode t)\<rparr>, None))"

text \<open>\<open>zipfile.ZipFile(p, 'r')\<close> and \<open>testzip()\<close> on the file stored at \<open>p\<close>. A file
  that cannot be read makes the constructor raise.\<close>

definition zip_check :: "env \<Rightarrow> string \<Rightarrow> fs_state \<Rightarrow> fs_state \<times> zip_verdict" where
  "zip_check e p s =
     (let s' = s\<lparr>calls := calls s @ [ZipOpen p]\<rparr> in
      if io_error e (ZipOpen p) then (s', OpenRaises)
      else case files s' p of
             None \<Rightarrow> (s', OpenRaises)
           | Some b \<Rightarrow> (s', zip_probe e b))"

subsection \<open>\<open>werkzeug.utils.secure_filename\<close>\<close>

text \<open>
  The handler calls \<open>secure_filename\<close> of the Werkzeug library. The library does, in
  this order: Unicode normalisation to NFKD and removal of every non-ASCII character;
  replacement of the path separator by a space; \<open>"_".join(filename.split())\<close>;
  removal of every character outside \<open>A-Za-z0-9_.-\<close>; \<open>strip("._")\<close>.
  An ASCII character is its own normal form; for any other character the environment
  supplies the decomposition, of which the ASCII characters are kept.
\<close>

definition ascii_fold :: "(char \<Rightarrow> string) \<Rightarrow> char \<Rightarrow> string" where
  "ascii_fold tbl c = (if is_ascii c then [c] else filter is_ascii (tbl c))"

definition is_space :: "char \<Rightarrow> bool" where
  "is_space c = (code c \<in> {9, 10, 11, 12, 13, 28, 29, 30, 31, 32})"

text \<open>\<open>s.split()\<close>: the maximal runs of non-space characters. The first argument
  is the run being read, reversed.\<close>

fun split_run :: "string \<Rightarrow> string \<Rightarrow> string list" where
  "split_run cur [] = (if cur = [] then [] else [rev cur])"
| "split_run cur (c # cs) =
     (if is_space c
      then (if cur = [] then split_run [] cs else rev cur # split_run [] cs)
      else split_run (c # cur) cs)"

definition split_ws :: "string \<Rightarrow> string list" where
  "split_ws s = split_run [] s"

fun join_with :: "string \<Rightarrow> string list \<Rightarrow> string" where
  "join_with sep [] = []"
| "join_with sep [w] = w"
| "join_with sep (w # v # ws) = w @ sep @ join_with sep (v # ws)"

definition safe_char :: "char \<Rightarrow> bool" where
  "safe_char c =
     (let n = code c in
      (65 \<le> n \<and> n \<le> 90) \<or> (97 \<le> n \<and> n \<le> 122) \<or> (48 \<le> n \<and> n \<le> 57)
      \<or> c = CHR ''_'' \<or> c = CHR ''.'' \<or> c = CHR ''-'')"

definition dot_or_underscore :: "char \<Rightarrow> bool" where
  "dot_or_underscore c = (c = CHR ''.'' \<or> c = CHR ''_'')"

definition strip_dots :: "string \<Rightarrow> string" where
  "strip_dots s = rev (dropWhile dot_or_underscore (rev (dropWhile dot_or_underscore s)))"

definition secure_filename :: "(char \<Rightarrow> string) \<Rightarrow> string \<Rightarrow> string" where
  "secure_filename tbl name =
     (let ascii = concat (map (ascii_fold tbl) name);
          spaced = map (\<lambda>c. if c = CHR ''/'' then CHR '' '' else c) ascii
      in strip_dots (filter safe_char (join_with ''_'' (split_ws spaced))))"

subsection \<open>The module's functions\<close>

definition allowed_file :: "string \<Rightarrow> bool" where
  "allowed_file name =
     (CHR ''.'' \<in> set name \<and>
      (case rsplit_dot name of
         [_, ext] \<Rightarrow> lower ext \<in> ALLOWED_EXTENSIONS
       | _ \<Rightarrow> False))"

definition check_auth :: "env \<Rightarrow> request \<Rightarrow> bool" where
  "check_auth e r = (auth_token r = Some (API_KEY (environ_key e)))"

text \<open>\<open>GET /api/v1/status\<close>.\<close>

definition status :: response where
  "status = Response [(''status'', ''online''), (''server'', ''ET-Diagnostic-Node-v9'')] 200"

text \<open>The archive check of lines 71 to 77: \<open>Some\<close> response when the handler returns
  from inside the \<open>try\<close>, \<open>None\<close> when it goes on.\<close>

definition verify_zip :: "env \<Rightarrow> string \<Rightarrow> fs_state \<Rightarrow> fs_state \<times> response option" where
  "verify_zip e p s =
     (case zip_check e p s of
        (s', OpenRaises) \<Rightarrow> (s', Some (error_response ''Invalid ZIP'' 400))
      | (s', TestRaises) \<Rightarrow> (s', Some (error_response ''Invalid ZIP'' 400))
      | (s', BadMember m) \<Rightarrow> (s', Some (error_response ''Corrupted ZIP'' 400))
      | (s', Sound) \<Rightarrow> (s', None))"

text \<open>The truth value of the uploaded part in \<open>if file and ...\<close> is that of its file
  name.\<close>

definition file_truthy :: "file_storage \<Rightarrow> bool" where
  "file_truthy f = (filename f \<noteq> [])"

definition daily_folder :: "env \<Rightarrow> string" where
  "daily_folder e = os_path_join UPLOAD_FOLDER (strftime_date (now_first e))"

definition save_path :: "env \<Rightarrow> string \<Rightarrow> string" where
  "save_path e name =
     os_path_join (daily_folder e)
       (strftime_time (now_second e) @ ''_'' @ secure_filename (nfkd e) name)"

definition desc_path :: "env \<Rightarrow> string" where
  "desc_path e = os_path_join (daily_folder e) (strftime_time (now_second e) @ ''_desc.txt'')"

text \<open>Lines 60 and 61: \<open>if not os.path.exists(daily_folder): os.makedirs(daily_folder)\<close>.\<close>

definition ensure_daily_folder :: "env \<Rightarrow> fs_state \<Rightarrow> fs_state \<times> exn option" where
  "ensure_daily_folder e s =
     (case os_path_exists (daily_folder e) s of
        (s', True) \<Rightarrow> (s', None)
      | (s', False) \<Rightarrow> os_makedirs e (daily_folder e) s')"

text \<open>Lines 79 to 85: the description, then the success response.\<close>

definition store_description :: "env \<Rightarrow> string \<Rightarrow> fs_state \<Rightarrow> fs_state \<times> outcome" where
  "store_description e description s =
     (if description \<noteq> [] then
        (case write_text e (desc_path e) description s of
           (s', Some x) \<Rightarrow> (s', Raised x)
         | (s', None) \<Rightarrow> (s', Returned (success_response)))
      else (s, Returned (success_response)))"

text \<open>Lines 57 to 85: the branch taken for an allowed file.\<close>

definition store_report :: "env \<Rightarrow> file_storage \<Rightarrow> string \<Rightarrow> fs_state \<Rightarrow> fs_state \<times> outcome" where
  "store_report e file description s =
     (case ensure_daily_folder e s of
        (s1, Some x) \<Rightarrow> (s1, Raised x)
      | (s1, None) \<Rightarrow>
          (case file_save e (save_path e (filename file)) (content file) s1 of
             (s2, Some x) \<Rightarrow> (s2, Raised x)
           | (s2, None) \<Rightarrow>
               (if endswith (secure_filename (nfkd e) (filename file)) ''.zip'' then
                  (case verify_zip e (save_path e (filename file)) s2 of
                     (s3, Some r) \<Rightarrow> (s3, Returned r)
                   | (s3, None) \<Rightarrow> store_description e description s3)
                else store_description e description s2)))"

text \<open>Line 51: \<open>request.form.get('description', '')\<close>.\<close>

definition description_of :: "request \<Rightarrow> string" where
  "description_of r = (case description_field r of None \<Rightarrow> [] | Some d \<Rightarrow> d)"

text \<open>\<open>POST /api/v1/upload\<close>.\<close>

definition upload_file :: "env \<Rightarrow> request \<Rightarrow> fs_state \<Rightarrow> fs_state \<times> outcome" where
  "upload_file e r s =
     (if \<not> check_auth e r then (s, Returned (error_response ''Unauthorized'' 401))
      else case file_part r of
        None \<Rightarrow> (s, Returned (error_response ''No file part'' 400))
      | Some file \<Rightarrow>
          (let description = description_of r in
           if filename file = [] then (s, Returned (error_response ''No selected file'' 400))
           else if file_truthy file \<and> allowed_file (filename file)
             then store_report e file description s
             else (s, Returned (error_response ''Invalid file type'' 400))))"

subsection \<open>Notions used in the statements\<close>

text \<open>The letters \<open>A\<close>..\<open>Z\<close> and \<open>a\<close>..\<open>z\<close>.\<close>

definition ascii_letter :: "char \<Rightarrow> bool" where
  "ascii_letter c = ((65 \<le> code c \<and> code c \<le> 90) \<or> (97 \<le> code c \<and> code c \<le> 122))"

text \<open>The allow-list rule in the specification's words: the name contains a dot, and
  the lowercased text after its last dot is \<open>zip\<close> or \<open>csv\<close>.\<close>

definition extension_allowed :: "string \<Rightarrow> bool" where
  "extension_allowed name =
     (\<exists>i\<in>{0..<length name}. name ! i = CHR ''.'' \<and> CHR ''.'' \<notin> set (drop (Suc i) name)
        \<and> lower (drop (Suc i) name) \<in> {''zip'', ''csv''})"

text \<open>The file-system calls made between two states of one run.\<close>

definition new_calls :: "fs_state \<Rightarrow> fs_state \<Rightarrow> fs_op list" where
  "new_calls s s' = drop (length (calls s)) (calls s')"

text \<open>A path that names an entry directly inside a directory.\<close>

definition direct_child :: "string \<Rightarrow> string \<Rightarrow> bool" where
  "direct_child dir p =
     (let name = drop (length dir + 1) p in
      take (length dir + 1) p = dir @ ''/'' \<and> name \<noteq> [] \<and> CHR ''/'' \<notin> set name
      \<and> name \<noteq> ''.'' \<and> name \<noteq> ''..'')"

text \<open>The paths a list of calls writes to.\<close>

fun written :: "fs_op \<Rightarrow> string list" where
  "written (Save p b) = [p]"
| "written (WriteText p t) = [p]"
| "written _ = []"

definition writes :: "fs_op list \<Rightarrow> string list" where
  "writes ops = concat (map written ops)"

subsection \<open>Concrete values\<close>

definition dt0 :: datetime where
  "dt0 = \<lparr>year = 2024, month = 3, day = 5, hour = 14, minute = 7, second = 9\<rparr>"

text \<open>An environment in which no file-system call fails and an archive is sound
  exactly when its bytes start with \<open>PK\<close>.\<close>

definition env_ok :: env where
  "env_ok = \<lparr>environ_key = Some ''s3cret'', now_first = dt0, now_second = dt0,
     io_error = (\<lambda>_. False),
     zip_probe = (\<lambda>b. if startswith b ''PK'' then Sound else OpenRaises),
     nfkd = (\<lambda>_. [])\<rparr>"

definition fs_empty :: fs_state where
  "fs_empty = \<lparr>dirs = {}, files = Map.empty, calls = []\<rparr>"

definition req_no_token :: request where
  "req_no_token = \<lparr>auth_token = None,
     file_part = Some \<lparr>filename = ''report.csv'', content = ''a,b''\<rparr>,
     description_field = Some ''note''\<rparr>"

definition exe_part :: file_storage where
  "exe_part = \<lparr>filename = ''report.zip.exe'', content = ''MZ''\<rparr>"

definition empty_name_part :: file_storage where
  "empty_name_part = \<lparr>filename = [], content = ''a,b''\<rparr>"

definition dots_part :: file_storage where
  "dots_part = \<lparr>filename = ''../..'', content = ''a,b''\<rparr>"

definition req_dots :: request where
  "req_dots = \<lparr>auth_token = Some ''s3cret'', file_part = Some dots_part,
     description_field = None\<rparr>"

definition req_no_file :: request where
  "req_no_file = \<lparr>auth_token = Some ''s3cret'', file_part = None,
     description_field = None\<rparr>"

definition req_empty_name :: request where
  "req_empty_name = \<lparr>auth_token = Some ''s3cret'',
     file_part = Some empty_name_part, description_field = None\<rparr>"

definition req_exe :: request where
  "req_exe = \<lparr>auth_token = Some ''s3cret'',
     file_part = Some exe_part,
     description_field = Some ''note''\<rparr>"

definition req_csv_note :: request where
  "req_csv_note = \<lparr>auth_token = Some ''s3cret'',
     file_part = Some \<lparr>filename = ''../report.csv'', content = ''a,b''\<rparr>,
     description_field = Some ''note''\<rparr>"

definition req_bad_zip :: request where
  "req_bad_zip = \<lparr>auth_token = Some ''s3cret'',
     file_part = Some \<lparr>filename = ''r.zip'', content = ''xx''\<rparr>,
     description_field = Some ''note''\<rparr>"

definition req_upper_zip :: request where
  "req_upper_zip = \<lparr>auth_token = Some ''s3cret'',
     file_part = Some \<lparr>filename = ''report.ZIP'', content = ''xx''\<rparr>,
     description_field = None\<rparr>"

text \<open>As \<open>env_ok\<close>, but writing a text file fails.\<close>

definition env_desc_fails :: env where
  "env_desc_fails =
     env_ok\<lparr>io_error := (\<lambda>op. case op of WriteText p t \<Rightarrow> True | _ \<Rightarrow> False)\<rparr>"




section \<open>Auxiliary lemmas\<close>

lemma code_char_of: "code (char_of (n::nat)) = n mod 256"
  by (simp add: code_def)

lemma char_eq_code: "c = d \<longleftrightarrow> code c = code d"
  by (auto simp: code_def)

lemma lower_char_letter:
  assumes "97 \<le> code (lower_char c)" "code (lower_char c) \<le> 122"
  shows "ascii_letter c"
  using assms
  by (auto simp: lower_char_def Let_def ascii_letter_def code_char_of split: if_splits)

lemma code_simps:
  "code CHR ''z'' = 122" "code CHR ''i'' = 105" "code CHR ''p'' = 112"
  "code CHR ''c'' = 99" "code CHR ''s'' = 115" "code CHR ''v'' = 118"
  "code CHR ''.'' = 46" "code CHR ''_'' = 95" "code CHR ''/'' = 47" "code CHR ''-'' = 45"
  "code CHR '' '' = 32" "code CHR ''t'' = 116" "code CHR ''x'' = 120"
  by (simp_all add: code_def)

lemma letter_props:
  assumes "ascii_letter c"
  shows "is_ascii c" "\<not> is_space c" "safe_char c" "\<not> dot_or_underscore c" "c \<noteq> CHR ''/''"
  using assms
  by (auto simp: ascii_letter_def is_ascii_def is_space_def safe_char_def Let_def
      dot_or_underscore_def char_eq_code code_simps)

lemma allowed_ext_letters:
  assumes "lower ext \<in> ALLOWED_EXTENSIONS"
  shows "length ext = 3 \<and> (\<forall>c\<in>set ext. ascii_letter c)"
proof -
  from assms have "map lower_char ext = ''zip'' \<or> map lower_char ext = ''csv''"
    by (simp add: lower_def ALLOWED_EXTENSIONS_def)
  then obtain a b c where e: "ext = [a, b, c]"
    and l: "97 \<le> code (lower_char a) \<and> code (lower_char a) \<le> 122"
           "97 \<le> code (lower_char b) \<and> code (lower_char b) \<le> 122"
           "97 \<le> code (lower_char c) \<and> code (lower_char c) \<le> 122"
    by (auto simp: map_eq_Cons_conv code_simps)
  then show ?thesis by (simp add: lower_char_letter)
qed


subsection \<open>Cutting a name at its last dot\<close>

text \<open>With a dot in the string, \<open>rsplit\<close> yields two parts, so the index \<open>[1]\<close> in
  \<open>allowed_file\<close> is in range whenever it is evaluated.\<close>

lemma rsplit_dot_two: "CHR ''.'' \<in> set s \<Longrightarrow> length (rsplit_dot s) = 2"
  by (simp add: rsplit_dot_def)

lemma rsplit_dot_append:
  assumes "CHR ''.'' \<notin> set ext"
  shows "rsplit_dot (pre @ ''.'' @ ext) = [pre, ext]"
proof -
  have "takeWhile (\<lambda>c. c \<noteq> CHR ''.'') (rev ext @ CHR ''.'' # rev pre) = rev ext"
    using assms by (subst takeWhile_append2) auto
  moreover have "dropWhile (\<lambda>c. c \<noteq> CHR ''.'') (rev ext @ CHR ''.'' # rev pre) = CHR ''.'' # rev pre"
    using assms by (subst dropWhile_append2) auto
  ultimately show ?thesis by (simp add: rsplit_dot_def)
qed

lemma split_at_last_dot:
  assumes "CHR ''.'' \<in> set s"
  shows "\<exists>pre ext. s = pre @ ''.'' @ ext \<and> CHR ''.'' \<notin> set ext"
proof -
  let ?P = "\<lambda>c. c \<noteq> CHR ''.''"
  from assms have "CHR ''.'' \<in> set (rev s)" by simp
  then have ne: "dropWhile ?P (rev s) \<noteq> []" by (simp add: dropWhile_eq_Nil_conv)
  then have hd: "hd (dropWhile ?P (rev s)) = CHR ''.''"
    using hd_dropWhile [of ?P "rev s"] by simp
  from ne hd have d: "dropWhile ?P (rev s) = CHR ''.'' # tl (dropWhile ?P (rev s))"
    by (cases "dropWhile ?P (rev s)") simp_all
  have "rev s = takeWhile ?P (rev s) @ dropWhile ?P (rev s)" by simp
  then have "rev s = takeWhile ?P (rev s) @ CHR ''.'' # tl (dropWhile ?P (rev s))"
    using d by simp
  then have "s = rev (tl (dropWhile ?P (rev s))) @ ''.'' @ rev (takeWhile ?P (rev s))"
    by (metis append_Cons append_Nil rev.simps(2) rev_append rev_rev_ident append_assoc)
  moreover have "CHR ''.'' \<notin> set (rev (takeWhile ?P (rev s)))"
    by (auto dest: set_takeWhileD)
  ultimately show ?thesis by blast
qed

lemma allowed_file_iff:
  "allowed_file name \<longleftrightarrow>
     (\<exists>pre ext. name = pre @ ''.'' @ ext \<and> CHR ''.'' \<notin> set ext \<and> lower ext \<in> ALLOWED_EXTENSIONS)"
proof
  assume a: "allowed_file name"
  then have "CHR ''.'' \<in> set name" by (simp add: allowed_file_def)
  then obtain pre ext where n: "name = pre @ ''.'' @ ext" "CHR ''.'' \<notin> set ext"
    using split_at_last_dot by blast
  with a have "lower ext \<in> ALLOWED_EXTENSIONS"
    using rsplit_dot_append [of ext pre] by (simp add: allowed_file_def)
  with n show "\<exists>pre ext. name = pre @ ''.'' @ ext \<and> CHR ''.'' \<notin> set ext \<and> lower ext \<in> ALLOWED_EXTENSIONS"
    by blast
next
  assume "\<exists>pre ext. name = pre @ ''.'' @ ext \<and> CHR ''.'' \<notin> set ext \<and> lower ext \<in> ALLOWED_EXTENSIONS"
  then obtain pre ext where n: "name = pre @ ''.'' @ ext" "CHR ''.'' \<notin> set ext"
    "lower ext \<in> ALLOWED_EXTENSIONS" by blast
  then show "allowed_file name"
    using rsplit_dot_append [of ext pre] by (simp add: allowed_file_def)
qed

subsection \<open>The sanitized name keeps a final run of letters\<close>

lemma split_run_letters:
  assumes "\<forall>c\<in>set e. \<not> is_space c" "cur \<noteq> [] \<or> e \<noteq> []"
  shows "split_run cur e = [rev cur @ e]"
  using assms by (induction e arbitrary: cur) auto

lemma split_run_suffix:
  assumes "\<forall>c\<in>set e. \<not> is_space c" "e \<noteq> []"
  shows "\<exists>ws w. split_run cur (ys @ e) = ws @ [w @ e]"
  using assms
proof (induction ys arbitrary: cur)
  case Nil
  then show ?case using split_run_letters [of e cur] by (metis append_Nil)
next
  case (Cons y ys)
  show ?case
  proof (cases "is_space y")
    case False
    then show ?thesis using Cons.IH [of "y # cur"] Cons.prems by simp
  next
    case True
    from Cons.IH [of "[]"] Cons.prems obtain ws w where
      "split_run [] (ys @ e) = ws @ [w @ e]" by blast
    then show ?thesis using True
      by (cases "cur = []") (auto intro: exI [of _ "rev cur # ws"])
  qed
qed

lemma join_with_suffix: "\<exists>z. join_with sep (ws @ [w @ e]) = z @ e"
proof (induction ws rule: join_with.induct [of _ sep])
  case (1 sep)
  then show ?case by simp
next
  case (2 sep v)
  then show ?case by simp
next
  case (3 sep v u us)
  then show ?case by (metis append_Cons append_assoc join_with.simps(3))
qed

lemma strip_dots_suffix:
  assumes "e \<noteq> []" "\<forall>c\<in>set e. \<not> dot_or_underscore c"
  shows "\<exists>u. strip_dots (z @ e) = u @ e"
proof -
  obtain u where u: "dropWhile dot_or_underscore (z @ e) = u @ e"
  proof (cases "\<forall>c\<in>set z. dot_or_underscore c")
    case True
    then have "dropWhile dot_or_underscore (z @ e) = dropWhile dot_or_underscore e"
      by (simp add: dropWhile_append)
    also have "\<dots> = e" using assms by (cases e) auto
    finally show ?thesis using that [of "[]"] by simp
  next
    case False
    then have "dropWhile dot_or_underscore (z @ e) = dropWhile dot_or_underscore z @ e"
      by (auto simp: dropWhile_append)
    then show ?thesis using that by blast
  qed
  have "\<not> dot_or_underscore (hd (rev e))" using assms by (simp add: hd_rev)
  then have "dropWhile dot_or_underscore (rev e @ rev u) = rev e @ rev u"
    using assms(1) by (cases "rev e") auto
  then show ?thesis using u by (simp add: strip_dots_def)
qed

lemma secure_filename_suffix:
  assumes "e \<noteq> []" "\<forall>c\<in>set e. ascii_letter c"
  shows "\<exists>u. secure_filename tbl (pre @ e) = u @ e"
proof -
  let ?sp = "map (\<lambda>c. if c = CHR ''/'' then CHR '' '' else c)"
  have e1: "concat (map (ascii_fold tbl) e) = e"
    using assms(2) by (induction e) (auto simp: ascii_fold_def letter_props)
  have e2: "?sp e = e"
    using assms(2) by (induction e) (auto simp: letter_props)
  have nsp: "\<forall>c\<in>set e. \<not> is_space c" using assms(2) by (simp add: letter_props)
  obtain ys where ys: "?sp (concat (map (ascii_fold tbl) (pre @ e))) = ys @ e"
    using e1 e2 by simp
  obtain ws w where "split_ws (ys @ e) = ws @ [w @ e]"
    using split_run_suffix [OF nsp assms(1)] unfolding split_ws_def by blast
  then obtain z where z: "join_with ''_'' (split_ws (ys @ e)) = z @ e"
    using join_with_suffix by metis
  have "filter safe_char (z @ e) = filter safe_char z @ e"
    using assms(2) by (simp add: letter_props)
  moreover have "\<forall>c\<in>set e. \<not> dot_or_underscore c" using assms(2) by (simp add: letter_props)
  ultimately obtain u where "strip_dots (filter safe_char (z @ e)) = u @ e"
    using strip_dots_suffix [OF assms(1)] by metis
  then show ?thesis using ys z by (simp add: secure_filename_def Let_def)
qed

lemma secure_filename_allowed:
  assumes "allowed_file name"
  shows "\<exists>pre u ext. name = pre @ ''.'' @ ext \<and> CHR ''.'' \<notin> set ext
           \<and> lower ext \<in> ALLOWED_EXTENSIONS \<and> length ext = 3
           \<and> secure_filename tbl name = u @ ext"
proof -
  from assms obtain pre ext where n: "name = pre @ ''.'' @ ext" "CHR ''.'' \<notin> set ext"
    "lower ext \<in> ALLOWED_EXTENSIONS" using allowed_file_iff by blast
  then have l: "length ext = 3" "\<forall>c\<in>set ext. ascii_letter c"
    using allowed_ext_letters by blast+
  then have "ext \<noteq> []" by auto
  then obtain u where "secure_filename tbl ((pre @ ''.'') @ ext) = u @ ext"
    using secure_filename_suffix l(2) by blast
  with n l show ?thesis by auto
qed

lemma set_secure_filename: "c \<in> set (secure_filename tbl name) \<Longrightarrow> safe_char c"
  by (auto simp: secure_filename_def Let_def strip_dots_def dest!: set_dropWhileD)

subsection \<open>Paths\<close>

lemma code_digit: "code (digit n) = 48 + n mod 10"
proof -
  have "48 + n mod 10 < 256" by simp
  then show ?thesis by (simp add: digit_def code_char_of)
qed

lemma digit_not_slash: "digit n \<noteq> CHR ''/''" "CHR ''/'' \<noteq> digit n"
  by (simp_all add: char_eq_code code_digit code_simps)

lemma startswith_slash: "startswith s ''/'' \<longleftrightarrow> s \<noteq> [] \<and> hd s = CHR ''/''"
  by (cases s) (auto simp: startswith_def)

lemma endswith_slash: "endswith s ''/'' \<longleftrightarrow> s \<noteq> [] \<and> last s = CHR ''/''"
proof (cases "s = []")
  case True
  then show ?thesis by (simp add: endswith_def)
next
  case False
  then have "drop (length s - 1) s = [last s]"
    by (metis append_butlast_last_id append_eq_conv_conj length_butlast)
  with False show ?thesis by (auto simp: endswith_def Suc_le_eq)
qed

lemma daily_folder_eq: "daily_folder e = ''received_reports/'' @ strftime_date (now_first e)"
  by (simp add: daily_folder_def os_path_join_def startswith_slash endswith_slash
      UPLOAD_FOLDER_def strftime_date_def four_digits_def digit_not_slash)

lemma daily_folder_end: "daily_folder e \<noteq> [] \<and> \<not> endswith (daily_folder e) ''/''"
  by (simp add: daily_folder_eq endswith_slash strftime_date_def two_digits_def digit_not_slash)

lemma save_path_eq:
  "save_path e name =
     daily_folder e @ ''/'' @ strftime_time (now_second e) @ ''_'' @ secure_filename (nfkd e) name"
  using daily_folder_end [of e]
  by (simp add: save_path_def os_path_join_def startswith_slash
      strftime_time_def two_digits_def digit_not_slash)

lemma desc_path_eq:
  "desc_path e = daily_folder e @ ''/'' @ strftime_time (now_second e) @ ''_desc.txt''"
  using daily_folder_end [of e]
  by (simp add: desc_path_def os_path_join_def startswith_slash
      strftime_time_def two_digits_def digit_not_slash)

lemma txt_not_allowed: "lower ''txt'' \<notin> ALLOWED_EXTENSIONS"
  by (simp add: lower_def lower_char_def ALLOWED_EXTENSIONS_def code_simps)

lemma secure_filename_not_desc:
  assumes "allowed_file name"
  shows "secure_filename tbl name \<noteq> ''desc.txt''"
proof
  assume d: "secure_filename tbl name = ''desc.txt''"
  from secure_filename_allowed [OF assms, of tbl] obtain u ext where
    x: "lower ext \<in> ALLOWED_EXTENSIONS" "length ext = 3" "secure_filename tbl name = u @ ext"
    by blast
  with d have "u @ ext = ''desc'' @ ''.txt''" by simp
  then have "drop (length (u @ ext) - 3) (u @ ext) = ''txt''" by simp
  with x(2) have "ext = ''txt''" by simp
  with x(1) show False using txt_not_allowed by simp
qed

lemma save_path_not_desc_path:
  assumes "allowed_file name"
  shows "save_path e name \<noteq> desc_path e"
  using secure_filename_not_desc [OF assms, of "nfkd e"]
  by (simp add: save_path_eq desc_path_eq)

lemma secure_filename_nonempty:
  assumes "allowed_file name"
  shows "secure_filename tbl name \<noteq> []"
  using secure_filename_allowed [OF assms, of tbl] by auto

lemma endswithD: "endswith s suf \<Longrightarrow> \<exists>v. s = v @ suf"
  by (metis append_take_drop_id endswith_def)

lemma endswith_zip_ext:
  assumes "length ext = 3" "endswith (u @ ext) ''.zip''"
  shows "ext = ''zip''"
proof -
  from endswithD [OF assms(2)] obtain v where "u @ ext = (v @ ''.'') @ ''zip''" by auto
  moreover have "length ext = length ''zip''" using assms(1) by simp
  ultimately show ?thesis by (metis append_eq_append_conv)
qed

lemma extension_allowed_iff: "extension_allowed name \<longleftrightarrow> allowed_file name"
proof
  assume "extension_allowed name"
  then obtain i where i: "i < length name" "name ! i = CHR ''.''"
    "CHR ''.'' \<notin> set (drop (Suc i) name)" "lower (drop (Suc i) name) \<in> {''zip'', ''csv''}"
    by (auto simp: extension_allowed_def)
  then have "name = take i name @ ''.'' @ drop (Suc i) name"
    using id_take_nth_drop [of i name] by simp
  with i show "allowed_file name"
    unfolding allowed_file_iff ALLOWED_EXTENSIONS_def by blast
next
  assume "allowed_file name"
  then obtain pre ext where n: "name = pre @ ''.'' @ ext" "CHR ''.'' \<notin> set ext"
    "lower ext \<in> {''zip'', ''csv''}"
    unfolding allowed_file_iff ALLOWED_EXTENSIONS_def by blast
  then have "length pre < length name" "name ! length pre = CHR ''.''"
    "drop (Suc (length pre)) name = ext" by simp_all
  with n show "extension_allowed name"
    unfolding extension_allowed_def by (metis atLeastLessThan_iff le0)
qed

lemmas prims = ensure_daily_folder_def os_path_exists_def os_makedirs_def file_save_def
  verify_zip_def zip_check_def store_description_def write_text_def

lemma store_report_files:
  assumes "store_report e f d s = (s', Returned resp)" "status_code resp = 201"
  shows "files s' = (if d \<noteq> []
           then (files s)(save_path e (filename f) \<mapsto> content f, desc_path e \<mapsto> utf8_encode d)
           else (files s)(save_path e (filename f) \<mapsto> content f))"
  using assms
  by (auto simp: store_report_def prims Let_def error_response_def
      split: if_splits prod.splits option.splits zip_verdict.splits bool.splits)


lemma error_status [simp]: "status_code (error_response m n) = n"
  by (simp add: error_response_def)

lemma success_status [simp]: "status_code success_response = 201"
  by (simp add: success_response_def)

lemma store_description_returns:
  "snd (store_description e d s) = Returned resp \<Longrightarrow> resp = success_response"
  by (auto simp: store_description_def write_text_def Let_def split: if_splits)

lemma upload_success_allowed:
  assumes "snd (upload_file e r s) = Returned resp" "status_code resp = 201"
  shows "\<exists>f. file_part r = Some f \<and> allowed_file (filename f)
           \<and> upload_file e r s = store_report e f (description_of r) s"
  using assms
  by (auto simp: upload_file_def Let_def split: if_splits option.splits)

lemma store_report_files':
  assumes "snd (store_report e f d s) = Returned resp" "status_code resp = 201"
  shows "files (fst (store_report e f d s)) = (if d \<noteq> []
           then (files s)(save_path e (filename f) \<mapsto> content f, desc_path e \<mapsto> utf8_encode d)
           else (files s)(save_path e (filename f) \<mapsto> content f))"
  using assms store_report_files [of e f d s "fst (store_report e f d s)" resp]
  by (cases "store_report e f d s") simp

lemma upload_allowed:
  assumes "check_auth e r" "file_part r = Some f" "allowed_file (filename f)"
  shows "upload_file e r s = store_report e f (description_of r) s"
proof -
  from assms(3) have "filename f \<noteq> []" by (auto simp: allowed_file_def)
  with assms show ?thesis by (simp add: upload_file_def file_truthy_def)
qed

lemma upper_zip_not_endswith:
  assumes "CHR ''.'' \<notin> set ext" "lower ext = ''zip''" "ext \<noteq> ''zip''"
  shows "allowed_file (pre @ ''.'' @ ext)"
    and "\<not> endswith (secure_filename tbl (pre @ ''.'' @ ext)) ''.zip''"
proof -
  from assms have a: "lower ext \<in> ALLOWED_EXTENSIONS" by (simp add: ALLOWED_EXTENSIONS_def)
  with assms(1) show "allowed_file (pre @ ''.'' @ ext)" unfolding allowed_file_iff by blast
  from a have l: "length ext = 3" "\<forall>c\<in>set ext. ascii_letter c"
    using allowed_ext_letters by blast+
  then have "ext \<noteq> []" by auto
  then obtain u where "secure_filename tbl ((pre @ ''.'') @ ext) = u @ ext"
    using secure_filename_suffix l(2) by blast
  then show "\<not> endswith (secure_filename tbl (pre @ ''.'' @ ext)) ''.zip''"
    using endswith_zip_ext [OF l(1)] assms(3) by auto
qed

lemma new_calls_same [simp]: "new_calls s s = []"
  by (simp add: new_calls_def)

lemma safe_not_slash: "safe_char c \<Longrightarrow> c \<noteq> CHR ''/''"
  by (auto simp: safe_char_def Let_def code_simps)

lemma direct_child_save_path: "direct_child (daily_folder e) (save_path e name)"
proof -
  have "CHR ''/'' \<notin> set (secure_filename (nfkd e) name)"
    using set_secure_filename safe_not_slash by blast
  then show ?thesis
    by (simp add: direct_child_def save_path_eq strftime_time_def two_digits_def digit_not_slash)
qed

lemma direct_child_desc_path: "direct_child (daily_folder e) (desc_path e)"
  by (simp add: direct_child_def desc_path_eq strftime_time_def two_digits_def digit_not_slash)

lemma store_report_writes:
  "set (writes (new_calls s (fst (store_report e f d s))))
     \<subseteq> {save_path e (filename f), desc_path e}"
  by (auto simp: store_report_def prims Let_def new_calls_def writes_def
      split: zip_verdict.splits bool.splits if_splits)

lemma upload_writes:
  assumes "p \<in> set (writes (new_calls s (fst (upload_file e r s))))"
  shows "direct_child (daily_folder e) p"
proof -
  from assms obtain f where "file_part r = Some f"
    "p \<in> set (writes (new_calls s (fst (store_report e f (description_of r) s))))"
    by (auto simp: upload_file_def Let_def writes_def split: if_splits option.splits)
  then have "p = save_path e (filename f) \<or> p = desc_path e"
    using store_report_writes [of s e f "description_of r"] by auto
  then show ?thesis using direct_child_save_path direct_child_desc_path by auto
qed

lemma upload_empty_sanitized:
  assumes "file_part r = Some f" "secure_filename (nfkd e) (filename f) = []"
  shows "fst (upload_file e r s) = s
       \<and> (\<exists>resp. snd (upload_file e r s) = Returned resp \<and> status_code resp \<in> {400, 401})"
proof -
  have "\<not> allowed_file (filename f)"
    using secure_filename_nonempty [of "filename f" "nfkd e"] assms(2) by auto
  with assms(1) show ?thesis by (simp add: upload_file_def Let_def)
qed

lemma store_report_description:
  assumes "snd (store_report e f d s) = Returned resp"
  shows "(WriteText p t \<in> set (new_calls s (fst (store_report e f d s)))
            \<longleftrightarrow> p = desc_path e \<and> t = d \<and> status_code resp = 201 \<and> d \<noteq> [])"
  using assms
  by (auto simp: store_report_def prims Let_def new_calls_def
      split: zip_verdict.splits bool.splits if_splits)

section \<open>Properties\<close>

text \<open>
  C1. A request whose \<open>X-ET-AUTH-TOKEN\<close> header is absent or differs from the configured
  key is answered with status 401 and the payload \<open>{"error": "Unauthorized"}\<close>, whatever
  the rest of the request is; the handler makes no file-system call and leaves the
  directories and files as they were.
\<close>

theorem unauthorized_no_filesystem:
  assumes "auth_token r \<noteq> Some (API_KEY (environ_key e))"
  shows "upload_file e r s = (s, Returned (error_response ''Unauthorized'' 401))"
  using assms by (simp add: upload_file_def check_auth_def)

theorem unauthorized_no_filesystem_witness:
  "auth_token req_no_token \<noteq> Some (API_KEY (environ_key env_ok))
   \<and> upload_file env_ok req_no_token fs_empty
       = (fs_empty, Returned (error_response ''Unauthorized'' 401))"
  using unauthorized_no_filesystem [of req_no_token env_ok fs_empty]
  by (simp add: req_no_token_def env_ok_def)

text \<open>
  C2. For an authenticated request with a non-empty file name, \<open>allowed_file\<close> on the
  client's own file name holds exactly when the name contains a dot and the lowercased
  text after its last dot is \<open>zip\<close> or \<open>csv\<close>. A name that fails the rule is answered
  with status 400 and \<open>Invalid file type\<close>, and the file-system state is untouched; a
  name that passes is handed to the storing branch, which is where the name is
  sanitized; and an answer of 201 is given only to a name that passes.
\<close>

theorem extension_allow_list:
  assumes "check_auth e r" "file_part r = Some f" "filename f \<noteq> []"
  shows "(allowed_file (filename f) \<longleftrightarrow> extension_allowed (filename f))
       \<and> (\<not> extension_allowed (filename f) \<longrightarrow>
            upload_file e r s = (s, Returned (error_response ''Invalid file type'' 400)))
       \<and> (extension_allowed (filename f) \<longrightarrow>
            upload_file e r s = store_report e f (description_of r) s)
       \<and> (\<forall>resp. snd (upload_file e r s) = Returned resp \<and> status_code resp = 201 \<longrightarrow>
            extension_allowed (filename f))"
  using assms
  by (auto simp: upload_file_def extension_allowed_iff file_truthy_def error_response_def)

theorem extension_allow_list_witness:
  "check_auth env_ok req_exe \<and> file_part req_exe = Some exe_part \<and> filename exe_part \<noteq> []
   \<and> \<not> extension_allowed (filename exe_part)
   \<and> upload_file env_ok req_exe fs_empty
       = (fs_empty, Returned (error_response ''Invalid file type'' 400))"
proof -
  have h: "check_auth env_ok req_exe" "file_part req_exe = Some exe_part"
    "filename exe_part \<noteq> []"
    by (simp_all add: check_auth_def env_ok_def req_exe_def exe_part_def API_KEY_def)
  have n: "\<not> extension_allowed (filename exe_part)" by code_simp
  show ?thesis using extension_allow_list [OF h, of fs_empty] h n by simp
qed




text \<open>
  C4. For an authenticated upload of an allowed file whose sanitized name ends in
  \<open>.zip\<close> and which has been written to disk: if the archive cannot be opened, or its
  test raises or names a corrupted member, the handler answers 400 with
  \<open>Corrupted ZIP\<close> (a corrupted member) or \<open>Invalid ZIP\<close> (every other failure), and
  the written file is still at its path with the uploaded bytes.
\<close>

theorem corrupt_zip_rejected_file_kept:
  assumes "check_auth e r" "file_part r = Some f" "allowed_file (filename f)"
    and "endswith (secure_filename (nfkd e) (filename f)) ''.zip''"
    and "\<not> io_error e (Makedirs (daily_folder e))"
    and "\<not> io_error e (Save (save_path e (filename f)) (content f))"
    and "io_error e (ZipOpen (save_path e (filename f))) \<or> zip_probe e (content f) \<noteq> Sound"
  shows "snd (upload_file e r s)
           = Returned (error_response
               (if io_error e (ZipOpen (save_path e (filename f))) then ''Invalid ZIP''
                else case zip_probe e (content f) of
                       BadMember m \<Rightarrow> ''Corrupted ZIP'' | _ \<Rightarrow> ''Invalid ZIP'') 400)
       \<and> files (fst (upload_file e r s)) (save_path e (filename f)) = Some (content f)"
proof -
  from assms(3) have "filename f \<noteq> []" by (auto simp: allowed_file_def)
  with assms(1-3) have "upload_file e r s = store_report e f (description_of r) s"
    by (simp add: upload_file_def file_truthy_def)
  then show ?thesis using assms(4-7)
    by (auto simp: store_report_def prims Let_def split: zip_verdict.splits bool.splits)
qed

theorem corrupt_zip_rejected_file_kept_witness:
  "check_auth env_ok req_bad_zip \<and> allowed_file ''r.zip''
   \<and> endswith (secure_filename (nfkd env_ok) ''r.zip'') ''.zip''
   \<and> zip_probe env_ok ''xx'' \<noteq> Sound
   \<and> snd (upload_file env_ok req_bad_zip fs_empty)
       = Returned (error_response ''Invalid ZIP'' 400)
   \<and> files (fst (upload_file env_ok req_bad_zip fs_empty))
        (save_path env_ok ''r.zip'') = Some ''xx''"
proof -
  let ?f = "\<lparr>filename = ''r.zip'', content = ''xx''\<rparr>"
  have h1: "check_auth env_ok req_bad_zip"
    by (simp add: check_auth_def env_ok_def req_bad_zip_def API_KEY_def)
  have h2: "file_part req_bad_zip = Some ?f" by (simp add: req_bad_zip_def)
  have h3: "allowed_file (filename ?f)" by code_simp
  have h4: "endswith (secure_filename (nfkd env_ok) (filename ?f)) ''.zip''" by code_simp
  have h5: "\<not> io_error env_ok (Makedirs (daily_folder env_ok))" by (simp add: env_ok_def)
  have h6: "\<not> io_error env_ok (Save (save_path env_ok (filename ?f)) (content ?f))"
    by (simp add: env_ok_def)
  have v: "zip_probe env_ok ''xx'' = OpenRaises" by (simp add: env_ok_def startswith_def)
  then have h7: "io_error env_ok (ZipOpen (save_path env_ok (filename ?f)))
                \<or> zip_probe env_ok (content ?f) \<noteq> Sound" by simp
  show ?thesis
    using corrupt_zip_rejected_file_kept [OF h1 h2 h3 h4 h5 h6 h7, of fs_empty] h1 h3 h4 h5 v
    by simp
qed

text \<open>
  C5. Whatever the client's file name is, its sanitized form consists of the characters
  \<open>A-Za-z0-9_.-\<close> only and so contains no path separator; the path under which the
  report is stored names an entry directly inside the day folder, as does every path
  the handler writes to; and a file name whose sanitized form is empty is rejected with
  status 400 (or 401) before anything is written, so an empty sanitized name is never
  used.
\<close>

theorem sanitized_name_stays_in_day_folder:
  "(\<forall>c\<in>set (secure_filename (nfkd e) name). safe_char c \<and> c \<noteq> CHR ''/'')
   \<and> direct_child (daily_folder e) (save_path e name)
   \<and> (\<forall>p\<in>set (writes (new_calls s (fst (upload_file e r s)))). direct_child (daily_folder e) p)
   \<and> (\<forall>f. file_part r = Some f \<and> secure_filename (nfkd e) (filename f) = []
        \<longrightarrow> fst (upload_file e r s) = s
            \<and> (\<exists>resp. snd (upload_file e r s) = Returned resp \<and> status_code resp \<in> {400, 401}))"
  using set_secure_filename safe_not_slash direct_child_save_path upload_writes
    upload_empty_sanitized by blast

theorem sanitized_name_stays_in_day_folder_witness:
  "CHR ''e'' \<in> set (secure_filename (nfkd env_ok) ''../../etc/passwd'')
   \<and> safe_char CHR ''e''
   \<and> secure_filename (nfkd env_ok) ''../../etc/passwd'' = ''etc_passwd''
   \<and> ''received_reports/2024-03-05/140709_report.csv''
        \<in> set (writes (new_calls fs_empty (fst (upload_file env_ok req_csv_note fs_empty))))
   \<and> direct_child (daily_folder env_ok) ''received_reports/2024-03-05/140709_report.csv''
   \<and> file_part req_dots = Some dots_part
   \<and> secure_filename (nfkd env_ok) (filename dots_part) = []
   \<and> fst (upload_file env_ok req_dots fs_empty) = fs_empty"
proof -
  have c: "CHR ''e'' \<in> set (secure_filename (nfkd env_ok) ''../../etc/passwd'')"
    and v: "secure_filename (nfkd env_ok) ''../../etc/passwd'' = ''etc_passwd''"
    by code_simp+
  have w: "''received_reports/2024-03-05/140709_report.csv''
        \<in> set (writes (new_calls fs_empty (fst (upload_file env_ok req_csv_note fs_empty))))"
    by code_simp
  have f: "file_part req_dots = Some dots_part" by (simp add: req_dots_def)
  have n: "secure_filename (nfkd env_ok) (filename dots_part) = []" by code_simp
  note t1 = sanitized_name_stays_in_day_folder
    [of env_ok "''../../etc/passwd''" fs_empty req_csv_note]
  note t2 = sanitized_name_stays_in_day_folder
    [of env_ok "''../../etc/passwd''" fs_empty req_dots]
  from t1 c have 1: "safe_char CHR ''e''" by blast
  from t1 w have 2: "direct_child (daily_folder env_ok)
      ''received_reports/2024-03-05/140709_report.csv''" by blast
  from t2 f n have 3: "fst (upload_file env_ok req_dots fs_empty) = fs_empty" by blast
  from c v w f n 1 2 3 show ?thesis by simp
qed

text \<open>
  C6, as amended. For every request that the handler answers, a description file is
  written exactly when the answer is 201 and the request supplied a non-empty
  description. It is then written to \<open>HHMMSS_desc.txt\<close> in the day folder of the report
  and holds the UTF-8 encoding of the description. A request that is rejected, also one
  rejected by the archive check after its report was stored, writes no description
  file.
\<close>

theorem description_written_iff_success:
  assumes "snd (upload_file e r s) = Returned resp"
  shows "(\<forall>p t. WriteText p t \<in> set (new_calls s (fst (upload_file e r s)))
             \<longleftrightarrow> p = desc_path e \<and> t = description_of r
                 \<and> status_code resp = 201 \<and> description_of r \<noteq> [])
       \<and> (status_code resp = 201 \<and> description_of r \<noteq> []
            \<longrightarrow> files (fst (upload_file e r s)) (desc_path e)
                = Some (utf8_encode (description_of r)))
       \<and> desc_path e = daily_folder e @ ''/'' @ strftime_time (now_second e) @ ''_desc.txt''"
proof (cases "status_code resp = 201")
  case True
  from upload_success_allowed [OF assms True] obtain f where
    f: "file_part r = Some f" "allowed_file (filename f)"
       "upload_file e r s = store_report e f (description_of r) s" by blast
  have "files (fst (upload_file e r s)) = (if description_of r \<noteq> []
       then (files s)(save_path e (filename f) \<mapsto> content f,
                      desc_path e \<mapsto> utf8_encode (description_of r))
       else (files s)(save_path e (filename f) \<mapsto> content f))"
    using assms True f(3) store_report_files' [of e f "description_of r" s resp] by simp
  then have "description_of r \<noteq> [] \<longrightarrow> files (fst (upload_file e r s)) (desc_path e)
                = Some (utf8_encode (description_of r))" by simp
  moreover have "\<forall>p t. WriteText p t \<in> set (new_calls s (fst (upload_file e r s)))
             \<longleftrightarrow> p = desc_path e \<and> t = description_of r
                 \<and> status_code resp = 201 \<and> description_of r \<noteq> []"
    using assms f(3) store_report_description [of e f "description_of r" s resp] by simp
  ultimately show ?thesis using desc_path_eq by simp
next
  case False
  have "\<forall>p t. WriteText p t \<notin> set (new_calls s (fst (upload_file e r s)))"
  proof (cases "\<exists>f. file_part r = Some f \<and> upload_file e r s = store_report e f (description_of r) s")
    case True
    then show ?thesis using assms False store_report_description [of e _ "description_of r" s resp]
      by auto
  next
    case False
    then have "fst (upload_file e r s) = s"
      by (auto simp: upload_file_def Let_def split: if_splits option.splits)
    then show ?thesis by simp
  qed
  with False show ?thesis using desc_path_eq by simp
qed

theorem description_written_iff_success_witness:
  "snd (upload_file env_ok req_csv_note fs_empty) = Returned success_response
   \<and> WriteText (desc_path env_ok) ''note''
        \<in> set (new_calls fs_empty (fst (upload_file env_ok req_csv_note fs_empty)))
   \<and> files (fst (upload_file env_ok req_csv_note fs_empty)) (desc_path env_ok)
       = Some (utf8_encode ''note'')"
proof -
  have h: "snd (upload_file env_ok req_csv_note fs_empty) = Returned success_response"
    by code_simp
  have d: "description_of req_csv_note = ''note''"
    by (simp add: description_of_def req_csv_note_def)
  note t = description_written_iff_success [OF h]
  from t [THEN conjunct1] d
  have 1: "WriteText (desc_path env_ok) ''note''
        \<in> set (new_calls fs_empty (fst (upload_file env_ok req_csv_note fs_empty)))"
    by (simp add: success_response_def)
  from t [THEN conjunct2, THEN conjunct1] d
  have 2: "files (fst (upload_file env_ok req_csv_note fs_empty)) (desc_path env_ok)
       = Some (utf8_encode ''note'')"
    by (simp add: success_response_def)
  from h 1 2 show ?thesis by simp
qed

text \<open>
  C6 as stated fails: the request below supplies the description \<open>note\<close> with an
  upload named \<open>r.zip\<close> whose bytes are no archive. The report is stored, the answer is
  400, and no description file exists afterwards.
\<close>

theorem description_not_written_counterexample:
  "description_of req_bad_zip = ''note''
   \<and> snd (upload_file env_ok req_bad_zip fs_empty)
       = Returned (error_response ''Invalid ZIP'' 400)
   \<and> files (fst (upload_file env_ok req_bad_zip fs_empty)) (desc_path env_ok) = None
   \<and> writes (calls (fst (upload_file env_ok req_bad_zip fs_empty)))
       = [''received_reports/2024-03-05/140709_r.zip'']"
  by code_simp

text \<open>
  C7. For an authenticated request, a missing file part is answered with status 400 and
  \<open>No file part\<close>, and a file part with an empty file name with status 400 and
  \<open>No selected file\<close>; in both cases the file-system state is untouched.
\<close>

theorem missing_file_bad_request:
  assumes "check_auth e r"
  shows "(file_part r = None \<longrightarrow>
            upload_file e r s = (s, Returned (error_response ''No file part'' 400)))
       \<and> (\<forall>f. file_part r = Some f \<and> filename f = [] \<longrightarrow>
            upload_file e r s = (s, Returned (error_response ''No selected file'' 400)))"
  using assms by (simp add: upload_file_def)

theorem missing_file_bad_request_witness:
  "check_auth env_ok req_no_file \<and> file_part req_no_file = None
   \<and> upload_file env_ok req_no_file fs_empty
       = (fs_empty, Returned (error_response ''No file part'' 400))
   \<and> check_auth env_ok req_empty_name \<and> file_part req_empty_name = Some empty_name_part
   \<and> filename empty_name_part = []
   \<and> upload_file env_ok req_empty_name fs_empty
       = (fs_empty, Returned (error_response ''No selected file'' 400))"
proof -
  have h1: "check_auth env_ok req_no_file"
    by (simp add: check_auth_def env_ok_def req_no_file_def API_KEY_def)
  have h2: "check_auth env_ok req_empty_name"
    by (simp add: check_auth_def env_ok_def req_empty_name_def API_KEY_def)
  have f1: "file_part req_no_file = None" by (simp add: req_no_file_def)
  have f2: "file_part req_empty_name = Some empty_name_part"
    "filename empty_name_part = []"
    by (simp_all add: req_empty_name_def empty_name_part_def)
  show ?thesis
    using missing_file_bad_request [OF h1, of fs_empty]
      missing_file_bad_request [OF h2, of fs_empty] h1 h2 f1 f2
    by simp
qed

text \<open>
  C9, as amended. For an authenticated upload of an allowed file that has been written
  to disk: when opening or testing the archive raises, the exception is caught and the
  answer is 400 with \<open>Invalid ZIP\<close>; when the description write fails, the exception
  leaves the handler, so no response is returned by it, and the report file stays
  stored.
\<close>

theorem zip_errors_caught_description_errors_raised:
  assumes "check_auth e r" "file_part r = Some f" "allowed_file (filename f)"
    and "\<not> io_error e (Makedirs (daily_folder e))"
    and "\<not> io_error e (Save (save_path e (filename f)) (content f))"
  shows "(endswith (secure_filename (nfkd e) (filename f)) ''.zip''
          \<and> (io_error e (ZipOpen (save_path e (filename f)))
               \<or> zip_probe e (content f) = OpenRaises \<or> zip_probe e (content f) = TestRaises)
          \<longrightarrow> snd (upload_file e r s) = Returned (error_response ''Invalid ZIP'' 400))
       \<and> ((endswith (secure_filename (nfkd e) (filename f)) ''.zip''
             \<longrightarrow> \<not> io_error e (ZipOpen (save_path e (filename f)))
                  \<and> zip_probe e (content f) = Sound)
          \<and> description_of r \<noteq> []
          \<and> io_error e (WriteText (desc_path e) (description_of r))
          \<longrightarrow> snd (upload_file e r s)
                = Raised (OSError (WriteText (desc_path e) (description_of r)))
              \<and> files (fst (upload_file e r s)) (save_path e (filename f))
                = Some (content f))"
  unfolding upload_allowed [OF assms(1-3)] using assms(4,5)
  by (auto simp: store_report_def prims Let_def split: zip_verdict.splits bool.splits)

theorem zip_errors_caught_description_errors_raised_witness:
  "zip_probe env_ok ''xx'' = OpenRaises
   \<and> snd (upload_file env_ok req_bad_zip fs_empty)
       = Returned (error_response ''Invalid ZIP'' 400)
   \<and> io_error env_desc_fails (WriteText (desc_path env_desc_fails) ''note'')
   \<and> snd (upload_file env_desc_fails req_csv_note fs_empty)
       = Raised (OSError (WriteText (desc_path env_desc_fails) ''note''))
   \<and> files (fst (upload_file env_desc_fails req_csv_note fs_empty))
        (save_path env_desc_fails ''../report.csv'') = Some ''a,b''"
proof -
  let ?z = "\<lparr>filename = ''r.zip'', content = ''xx''\<rparr>"
  let ?c = "\<lparr>filename = ''../report.csv'', content = ''a,b''\<rparr>"
  have a1: "check_auth env_ok req_bad_zip" "file_part req_bad_zip = Some ?z"
    by (simp_all add: check_auth_def env_ok_def req_bad_zip_def API_KEY_def)
  have a2: "allowed_file (filename ?z)" by code_simp
  have a3: "\<not> io_error env_ok (Makedirs (daily_folder env_ok))"
    "\<not> io_error env_ok (Save (save_path env_ok (filename ?z)) (content ?z))"
    by (simp_all add: env_ok_def)
  have a4: "endswith (secure_filename (nfkd env_ok) (filename ?z)) ''.zip''" by code_simp
  have a5: "zip_probe env_ok ''xx'' = OpenRaises" by (simp add: env_ok_def startswith_def)
  have b1: "check_auth env_desc_fails req_csv_note" "file_part req_csv_note = Some ?c"
    by (simp_all add: check_auth_def env_desc_fails_def env_ok_def req_csv_note_def API_KEY_def)
  have b2: "allowed_file (filename ?c)" by code_simp
  have b3: "\<not> io_error env_desc_fails (Makedirs (daily_folder env_desc_fails))"
    "\<not> io_error env_desc_fails (Save (save_path env_desc_fails (filename ?c)) (content ?c))"
    by (simp_all add: env_desc_fails_def env_ok_def)
  have b4: "\<not> endswith (secure_filename (nfkd env_desc_fails) (filename ?c)) ''.zip''"
    by code_simp
  have b5: "description_of req_csv_note = ''note''"
    by (simp add: description_of_def req_csv_note_def)
  have b6: "io_error env_desc_fails (WriteText (desc_path env_desc_fails) ''note'')"
    by (simp add: env_desc_fails_def)
  from zip_errors_caught_description_errors_raised [OF a1 a2 a3, of fs_empty] a4 a5
  have 1: "snd (upload_file env_ok req_bad_zip fs_empty)
       = Returned (error_response ''Invalid ZIP'' 400)" by simp
  from zip_errors_caught_description_errors_raised [OF b1 b2 b3, of fs_empty] b4 b5 b6
  have 2: "snd (upload_file env_desc_fails req_csv_note fs_empty)
       = Raised (OSError (WriteText (desc_path env_desc_fails) ''note''))
     \<and> files (fst (upload_file env_desc_fails req_csv_note fs_empty))
        (save_path env_desc_fails ''../report.csv'') = Some ''a,b''" by simp
  from a5 b6 1 2 show ?thesis by simp
qed

text \<open>
  C9 as stated fails in its first half: with the same request, the handler answers 201
  when the description can be written, and raises, returning nothing, when the
  description write fails.
\<close>

theorem description_write_failure_counterexample:
  "snd (upload_file env_ok req_csv_note fs_empty) = Returned success_response
   \<and> io_error env_desc_fails
        (WriteText ''received_reports/2024-03-05/140709_desc.txt'' ''note'')
   \<and> snd (upload_file env_desc_fails req_csv_note fs_empty)
       = Raised (OSError (WriteText ''received_reports/2024-03-05/140709_desc.txt'' ''note''))"
  by code_simp

text \<open>
  C10. For an authenticated upload whose file name ends in a dot followed by \<open>zip\<close> in
  a casing other than all lowercase, and with no file-system call failing: the
  allow-list accepts the name, the archive is never opened, the upload is stored, and
  the answer is 201, whatever the \<open>zipfile\<close> library would find in the stored bytes.
\<close>

theorem uppercase_zip_skips_integrity_check:
  assumes "check_auth e r" "file_part r = Some f"
    and "filename f = pre @ ''.'' @ ext" "CHR ''.'' \<notin> set ext"
    and "lower ext = ''zip''" "ext \<noteq> ''zip''"
    and "\<not> io_error e (Makedirs (daily_folder e))"
    and "\<not> io_error e (Save (save_path e (filename f)) (content f))"
    and "\<not> io_error e (WriteText (desc_path e) (description_of r))"
  shows "allowed_file (filename f)
       \<and> snd (upload_file e r s) = Returned success_response
       \<and> (\<forall>p. ZipOpen p \<notin> set (new_calls s (fst (upload_file e r s))))
       \<and> files (fst (upload_file e r s)) (save_path e (filename f)) = Some (content f)"
proof -
  have a: "allowed_file (filename f)"
    and n: "\<not> endswith (secure_filename (nfkd e) (filename f)) ''.zip''"
    using upper_zip_not_endswith [OF assms(4-6)] assms(3) by simp_all
  have ne: "save_path e (filename f) \<noteq> desc_path e"
    using save_path_not_desc_path [OF a] .
  show ?thesis
    unfolding upload_allowed [OF assms(1,2) a] using a n ne assms(7-9)
    by (auto simp: store_report_def prims Let_def new_calls_def split: bool.splits)
qed

theorem uppercase_zip_skips_integrity_check_witness:
  "check_auth env_ok req_upper_zip \<and> lower ''ZIP'' = ''zip''
   \<and> zip_probe env_ok ''xx'' = OpenRaises
   \<and> allowed_file ''report.ZIP''
   \<and> snd (upload_file env_ok req_upper_zip fs_empty) = Returned success_response
   \<and> files (fst (upload_file env_ok req_upper_zip fs_empty))
        (save_path env_ok ''report.ZIP'') = Some ''xx''"
proof -
  let ?f = "\<lparr>filename = ''report.ZIP'', content = ''xx''\<rparr>"
  have h1: "check_auth env_ok req_upper_zip" "file_part req_upper_zip = Some ?f"
    by (simp_all add: check_auth_def env_ok_def req_upper_zip_def API_KEY_def)
  have h2: "filename ?f = ''report'' @ ''.'' @ ''ZIP''" "CHR ''.'' \<notin> set ''ZIP''"
    "''ZIP'' \<noteq> ''zip''" by simp_all
  have h3: "lower ''ZIP'' = ''zip''" by code_simp
  have h4: "\<not> io_error env_ok (Makedirs (daily_folder env_ok))"
    "\<not> io_error env_ok (Save (save_path env_ok (filename ?f)) (content ?f))"
    "\<not> io_error env_ok (WriteText (desc_path env_ok) (description_of req_upper_zip))"
    by (simp_all add: env_ok_def)
  have v: "zip_probe env_ok ''xx'' = OpenRaises" by (simp add: env_ok_def startswith_def)
  show ?thesis
    using uppercase_zip_skips_integrity_check
      [OF h1 h2(1,2) h3 h2(3) h4, of fs_empty] h1 h3 v
    by simp
qed

end
